theory Spec2Isabelle
  imports Main "HOL-Library.Sublist" "HOL-Library.Multiset"
begin

section \<open>The XLA kernels DataFormatDimMap and DataFormatVecPermute\<close>

text \<open>
  A shallow embedding of \<^verbatim>\<open>tensorflow/compiler/tf2xla/kernels/data_format_ops.cc\<close>.
  A kernel is built once from two attribute strings (its constructor) and then asked to
  emit a computation for one input (\<^verbatim>\<open>Compile\<close>). The computation is modelled by the
  value it denotes: a tensor is its element type, its shape and its elements in row-major
  order.
\<close>

subsection \<open>Errors\<close>

text \<open>
  \<^verbatim>\<open>OP_REQUIRES\<close> records a status in the context and returns from the enclosing function.
  The only status this file produces is \<^verbatim>\<open>errors::InvalidArgument\<close>, whose arguments are
  concatenated into the message. \<open>IndeterminateValue\<close> is no status of the program: it marks
  a read of a C++ array entry that was never written.
\<close>

datatype error = InvalidArgument string | IndeterminateValue

subsection \<open>Tensors and the XLA primitives used by the kernels\<close>

datatype PrimitiveType = S32 | S64

record tensor =
  element_type :: PrimitiveType
  dimensions :: "nat list"
  data :: "int list"

text \<open>Width in bits of an element type, and the two's-complement value a type can hold.\<close>

fun bits :: "PrimitiveType \<Rightarrow> nat" where
  "bits S32 = 32"
| "bits S64 = 64"

definition wrap :: "PrimitiveType \<Rightarrow> int \<Rightarrow> int" where
  "wrap t v = signed_take_bit (bits t - 1) v"

definition in_range :: "PrimitiveType \<Rightarrow> int \<Rightarrow> bool" where
  "in_range t v = (- (2 ^ (bits t - 1)) \<le> v \<and> v < 2 ^ (bits t - 1))"

text \<open>
  Modelled from the spec: \<^verbatim>\<open>xla::ConstantR1\<close>
  (\<^verbatim>\<open>tensorflow/compiler/xla/client/xla_builder.h\<close>) is not under src/. The spec calls it
  "build a constant array of integers"; both kernels pass a span of \<^verbatim>\<open>int32\<close>.
\<close>

definition ConstantR1 :: "int list \<Rightarrow> tensor" where
  "ConstantR1 values = \<lparr>element_type = S32, dimensions = [length values], data = values\<rparr>"

text \<open>
  Modelled from the spec: \<^verbatim>\<open>xla::ConstantR0<int32>\<close> (same header) is not under src/. The
  spec calls it "build a scalar constant".
\<close>

definition ConstantR0 :: "int \<Rightarrow> tensor" where
  "ConstantR0 v = \<lparr>element_type = S32, dimensions = [], data = [v]\<rparr>"

text \<open>
  Modelled from the spec: \<^verbatim>\<open>xla::ConvertElementType\<close> is not under src/. The spec calls it
  "element-wise numeric type conversion". Between two's-complement integer types it is
  taken as the \<^verbatim>\<open>static_cast\<close> it lowers to: the shape is kept, a value that fits the new
  type is kept, and a value that does not fit is reduced modulo \<open>2 ^ bits\<close>.
\<close>

definition ConvertElementType :: "tensor \<Rightarrow> PrimitiveType \<Rightarrow> tensor" where
  "ConvertElementType operand new_element_type =
     operand\<lparr>element_type := new_element_type,
             data := map (wrap new_element_type) (data operand)\<rparr>"

text \<open>
  The remainder of C++: the quotient is truncated towards zero, so the remainder has the
  sign of the dividend.
\<close>

definition trunc_rem :: "int \<Rightarrow> int \<Rightarrow> int" where
  "trunc_rem a b = sgn a * (\<bar>a\<bar> mod \<bar>b\<bar>)"

text \<open>
  Modelled from the spec: the binary operators on \<^verbatim>\<open>xla::XlaOp\<close> are not under src/. The
  spec calls them "element-wise arithmetic". A rank-0 right operand is combined with every
  element of the left one; otherwise the operands are combined position by position.
\<close>

definition elementwise :: "(int \<Rightarrow> int \<Rightarrow> int) \<Rightarrow> tensor \<Rightarrow> tensor \<Rightarrow> tensor" where
  "elementwise f lhs rhs =
     (case (dimensions rhs, data rhs) of
        ([], [b]) \<Rightarrow> lhs\<lparr>data := map (\<lambda>a. f a b) (data lhs)\<rparr>
      | _ \<Rightarrow> lhs\<lparr>data := map2 f (data lhs) (data rhs)\<rparr>)"

text \<open>
  Modelled from the spec: \<^verbatim>\<open>operator+\<close> on \<^verbatim>\<open>xla::XlaOp\<close> (\<^verbatim>\<open>xla::Add\<close>) is not under src/. The
  spec calls it element-wise "add". The sum wraps around in the element type.
\<close>

definition Add :: "tensor \<Rightarrow> tensor \<Rightarrow> tensor" where
  "Add lhs rhs = elementwise (\<lambda>a b. wrap (element_type lhs) (a + b)) lhs rhs"

text \<open>
  Modelled from the spec: \<^verbatim>\<open>operator%\<close> on \<^verbatim>\<open>xla::XlaOp\<close> (\<^verbatim>\<open>xla::Rem\<close>) is not under src/. The
  spec calls it element-wise "modulo" and says that values outside \<open>[-4,4)\<close> "are not
  specially handled beyond the single +4 offset": it is the truncating remainder.
\<close>

definition Rem :: "tensor \<Rightarrow> tensor \<Rightarrow> tensor" where
  "Rem lhs rhs = elementwise trunc_rem lhs rhs"

text \<open>
  A slice is one entry of the first axis of a tensor: a scalar for rank 1, a row for
  rank 2. \<open>slice t j\<close> is the slice at first-axis position \<open>j\<close>.
\<close>

definition slice_size :: "tensor \<Rightarrow> nat" where
  "slice_size t = prod_list (tl (dimensions t))"

definition slice :: "tensor \<Rightarrow> nat \<Rightarrow> int list" where
  "slice t j = take (slice_size t) (drop (j * slice_size t) (data t))"

text \<open>
  Modelled from the spec: the slice a gather picks for an index \<open>i\<close> along an axis of
  extent \<open>n\<close>. The spec says only that slices are picked "at positions given by an index
  list" and does not say which slice is picked for an index outside the axis. The output
  has its full shape all the same, so some slice is picked: which one is the backend's
  choice, the parameter \<open>oob\<close> (given the extent and the index; a choice beyond the last
  slice counts as the last).
\<close>

definition pick :: "(nat \<Rightarrow> int \<Rightarrow> nat) \<Rightarrow> nat \<Rightarrow> int \<Rightarrow> nat" where
  "pick oob n i = (if 0 \<le> i \<and> i < int n then nat i else min (oob n i) (n - 1))"

text \<open>
  Modelled from the spec: \<^verbatim>\<open>xla::TorchIndexSelect\<close>
  (\<^verbatim>\<open>tensorflow/compiler/xla/client/lib/slicing.h\<close>) is not under src/. The spec calls it
  "gather/select-by-index along an axis": it "builds an output by picking slices of an
  input at positions given by an index list". Both kernels call it with \<open>dim = 0\<close>, so
  the model fixes that axis: the output holds one slice per index, and its shape is the
  shape of the index followed by the shape of a slice. An input of rank 0 has no axis 0;
  neither kernel passes one, and the model returns it as it is.
\<close>

definition TorchIndexSelect :: "(nat \<Rightarrow> int \<Rightarrow> nat) \<Rightarrow> tensor \<Rightarrow> tensor \<Rightarrow> tensor" where
  "TorchIndexSelect oob input index =
     (case dimensions input of
        [] \<Rightarrow> input
      | n # rest \<Rightarrow>
          \<lparr>element_type = element_type input,
           dimensions = dimensions index @ rest,
           data = concat (map (\<lambda>i. slice input (pick oob n i)) (data index))\<rparr>)"

subsection \<open>DataFormatDimMapOp\<close>

text \<open>
  The constructor. \<open>dst_idx\<close> is the member \<^verbatim>\<open>std::array<int32, 4> dst_idx_\<close>, which
  starts as \<open>{-1, -1, -1, -1}\<close>. \<open>dim_map_scan\<close> is the inner loop over \<open>j\<close> (it stops
  at the first match), \<open>dim_map_loop\<close> the outer loop over \<open>i\<close> with its
  \<^verbatim>\<open>OP_REQUIRES\<close> after each scan. The attributes are the two strings; their retrieval
  cannot fail for a registered op.
\<close>

fun dim_map_scan :: "string \<Rightarrow> string \<Rightarrow> nat \<Rightarrow> nat list \<Rightarrow> int list \<Rightarrow> int list" where
  "dim_map_scan src_format dst_format i [] dst_idx = dst_idx"
| "dim_map_scan src_format dst_format i (j # js) dst_idx =
     (if dst_format ! j = src_format ! i then dst_idx[i := int j]
      else dim_map_scan src_format dst_format i js dst_idx)"

fun dim_map_loop :: "string \<Rightarrow> string \<Rightarrow> nat list \<Rightarrow> int list \<Rightarrow> error + int list" where
  "dim_map_loop src_format dst_format [] dst_idx = Inr dst_idx"
| "dim_map_loop src_format dst_format (i # rest) dst_idx =
     (let dst_idx' = dim_map_scan src_format dst_format i [0..<length dst_format] dst_idx
      in if dst_idx' ! i = - 1
         then Inl (InvalidArgument (src_format @ '' is not a permutation of '' @ dst_format))
         else dim_map_loop src_format dst_format rest dst_idx')"

definition DataFormatDimMapOp :: "string \<Rightarrow> string \<Rightarrow> error + int list" where
  "DataFormatDimMapOp src_format dst_format =
     (if length src_format \<noteq> 4
      then Inl (InvalidArgument
             (''Source format must of length 4, received src_format = '' @ src_format))
      else if length dst_format \<noteq> 4
      then Inl (InvalidArgument
             (''Destination format must of length 4, received dst_format = '' @ dst_format))
      else dim_map_loop src_format dst_format [0..<length src_format] [- 1, - 1, - 1, - 1])"

text \<open>
  \<^verbatim>\<open>Compile\<close>. \<open>src_indices\<close> is the local of that name: the input converted to
  \<^verbatim>\<open>S32\<close>, plus four, remainder four.
\<close>

definition four :: tensor where
  "four = ConstantR0 4"

definition src_indices :: "tensor \<Rightarrow> tensor" where
  "src_indices input = Rem (Add (ConvertElementType input S32) four) four"

definition DataFormatDimMapOp_Compile ::
    "(nat \<Rightarrow> int \<Rightarrow> nat) \<Rightarrow> int list \<Rightarrow> tensor \<Rightarrow> tensor" where
  "DataFormatDimMapOp_Compile oob dst_idx input =
     (let dst_indices = ConstantR1 dst_idx;
          output = TorchIndexSelect oob dst_indices (src_indices input)
      in ConvertElementType output (element_type input))"

subsection \<open>DataFormatVecPermuteOp\<close>

text \<open>
  The constructor keeps the two strings in the members \<^verbatim>\<open>src_format_\<close> and
  \<^verbatim>\<open>dst_format_\<close>. \<^verbatim>\<open>FormatFromString\<close>
  (\<^verbatim>\<open>tensorflow/core/util/tensor_format.h\<close>) is not under src/ and the spec names no list
  of recognised layouts, so the recogniser is a parameter.
\<close>

record VecPermuteOp =
  member_src_format :: string
  member_dst_format :: string

definition DataFormatVecPermuteOp ::
    "(string \<Rightarrow> bool) \<Rightarrow> string \<Rightarrow> string \<Rightarrow> error + VecPermuteOp" where
  "DataFormatVecPermuteOp FormatFromString src_format dst_format =
     (if length src_format \<noteq> 4
      then Inl (InvalidArgument ''Data format should have 4 characters'')
      else if \<not> FormatFromString src_format
      then Inl (InvalidArgument ''Invalid data format'')
      else if length dst_format \<noteq> 4
      then Inl (InvalidArgument ''Data format should have 4 characters'')
      else if \<not> FormatFromString dst_format
      then Inl (InvalidArgument ''Invalid data format'')
      else Inr \<lparr>member_src_format = src_format, member_dst_format = dst_format\<rparr>)"

text \<open>
  A recogniser to run the constructor with: the four-character layout names.
\<close>

definition layout_names :: "string \<Rightarrow> bool" where
  "layout_names s = (s \<in> set [''NHWC'', ''NCHW'', ''HWNC'', ''HWCN''])"

text \<open>
  \<^verbatim>\<open>Compile\<close>. The local \<^verbatim>\<open>int32 dst_indices[4]\<close> is declared without an initialiser:
  an entry is \<open>None\<close> until the loops write it. \<open>vec_permute_scan\<close> is the inner loop
  over \<open>j\<close>, \<open>vec_permute_loop\<close> the outer loop over \<open>i\<close>. Building the constant reads
  all four entries. A constructed kernel holds two strings of four characters, so the
  reads at \<open>i, j < 4\<close> are inside them. \<^verbatim>\<open>TensorShape::DebugString\<close> is not under src/;
  the rendering of a shape is a parameter.
\<close>

fun vec_permute_scan ::
    "string \<Rightarrow> string \<Rightarrow> nat \<Rightarrow> nat list \<Rightarrow> int option list \<Rightarrow> int option list" where
  "vec_permute_scan src_format dst_format i [] dst_indices = dst_indices"
| "vec_permute_scan src_format dst_format i (j # js) dst_indices =
     (if src_format ! i = dst_format ! j then dst_indices[j := Some (int i)]
      else vec_permute_scan src_format dst_format i js dst_indices)"

fun vec_permute_loop ::
    "string \<Rightarrow> string \<Rightarrow> nat list \<Rightarrow> int option list \<Rightarrow> int option list" where
  "vec_permute_loop src_format dst_format [] dst_indices = dst_indices"
| "vec_permute_loop src_format dst_format (i # rest) dst_indices =
     vec_permute_loop src_format dst_format rest
       (vec_permute_scan src_format dst_format i [0..<4] dst_indices)"

definition DataFormatVecPermuteOp_Compile ::
    "(nat list \<Rightarrow> string) \<Rightarrow> (nat \<Rightarrow> int \<Rightarrow> nat) \<Rightarrow> VecPermuteOp \<Rightarrow> tensor
       \<Rightarrow> error + tensor" where
  "DataFormatVecPermuteOp_Compile DebugString oob this input =
     (let input_tensor_shape = dimensions input;
          input_rank = length input_tensor_shape
      in if \<not> (input_rank = 1 \<or> input_rank = 2)
         then Inl (InvalidArgument (''Input must be a vector or matrix, but got shape '' @
                     DebugString input_tensor_shape))
         else if input_tensor_shape ! 0 \<noteq> 4
         then Inl (InvalidArgument
                    (''First dimension of input must be of size 4, but got shape '' @
                     DebugString input_tensor_shape))
         else if input_rank = 2 \<and> input_tensor_shape ! 1 \<noteq> 2
         then Inl (InvalidArgument
                    (''Second dimension of 2D input must be of size 2, but got shape '' @
                     DebugString input_tensor_shape))
         else (case those (vec_permute_loop (member_src_format this) (member_dst_format this) [0..<4]
                             [None, None, None, None]) of
                 None \<Rightarrow> Inl IndeterminateValue
               | Some dst_indices \<Rightarrow>
                   Inr (TorchIndexSelect oob input (ConstantR1 dst_indices))))"

subsection \<open>The notions of the specification\<close>

text \<open>
  The position of a symbol in a format string (the first one, if it occurs more than
  once), and "is a permutation of".
\<close>

fun position :: "char \<Rightarrow> string \<Rightarrow> nat" where
  "position c [] = 0"
| "position c (d # ds) = (if c = d then 0 else Suc (position c ds))"

definition is_permutation_of :: "string \<Rightarrow> string \<Rightarrow> bool" where
  "is_permutation_of src dst = (mset src = mset dst)"

text \<open>
  The input of the vector-permute kernel: a rank-1 tensor of length 4 or a rank-2 tensor
  of shape \<open>[4, 2]\<close>, with as many elements as the shape says.
\<close>

definition format_vector :: "tensor \<Rightarrow> bool" where
  "format_vector t =
     ((dimensions t = [4] \<or> dimensions t = [4, 2]) \<and>
      length (data t) = prod_list (dimensions t))"

text \<open>
  A shape rendering and a backend choice to run the kernels with: a shape is printed as
  its extents in decimal, separated by commas, between brackets; an index below the axis
  picks the first slice and an index above it the last.
\<close>

fun digit :: "nat \<Rightarrow> char" where
  "digit n = (''0123456789'' @ replicate n CHR ''?'') ! n"

function decimal :: "nat \<Rightarrow> string" where
  "decimal n = (if n < 10 then [digit n] else decimal (n div 10) @ [digit (n mod 10)])"
  by pat_completeness auto
termination
  by (relation "measure id") auto

declare decimal.simps [simp del]

fun comma_separated :: "string list \<Rightarrow> string" where
  "comma_separated [] = []"
| "comma_separated [s] = s"
| "comma_separated (s # t # rest) = s @ '','' @ comma_separated (t # rest)"

definition shape_string :: "nat list \<Rightarrow> string" where
  "shape_string ds = ''['' @ comma_separated (map decimal ds) @ '']''"

definition clamp :: "nat \<Rightarrow> int \<Rightarrow> nat" where
  "clamp n i = (if i < 0 then 0 else n - 1)"

section \<open>Properties\<close>

subsection \<open>Positions in a format string\<close>

lemma position_less: "c \<in> set s \<Longrightarrow> position c s < length s"
  by (induction s) auto

lemma nth_position: "c \<in> set s \<Longrightarrow> s ! position c s = c"
  by (induction s) auto

lemma position_nth: "distinct s \<Longrightarrow> j < length s \<Longrightarrow> position (s ! j) s = j"
proof (induction s arbitrary: j)
  case Nil
  then show ?case by simp
next
  case (Cons d ds)
  then show ?case by (cases j) auto
qed

subsection \<open>Construction of DataFormatDimMapOp\<close>

lemma dim_map_scan_from:
  "k \<le> length dst \<Longrightarrow>
   dim_map_scan src dst i [k..<length dst] arr =
     (if src ! i \<in> set (drop k dst)
      then arr[i := int (k + position (src ! i) (drop k dst))] else arr)"
proof (induction "length dst - k" arbitrary: k)
  case 0
  then show ?case by simp
next
  case (Suc m)
  then have k: "k < length dst" by simp
  have step: "dim_map_scan src dst i [Suc k..<length dst] arr =
     (if src ! i \<in> set (drop (Suc k) dst)
      then arr[i := int (Suc k + position (src ! i) (drop (Suc k) dst))] else arr)"
    using Suc.hyps(1) [of "Suc k"] Suc.hyps(2) k by simp
  have unfold: "drop k dst = dst ! k # drop (Suc k) dst"
    using k by (simp add: Cons_nth_drop_Suc)
  show ?case
    using k by (simp add: upt_conv_Cons unfold step add_ac del: upt_Suc)
qed

lemma dim_map_scan_all:
  "dim_map_scan src dst i [0..<length dst] arr =
     (if src ! i \<in> set dst then arr[i := int (position (src ! i) dst)] else arr)"
  using dim_map_scan_from [of 0 dst src i arr] by simp

lemma dim_map_loop_from:
  assumes "length arr = length src" and "k \<le> length src"
    and "\<forall>i. k \<le> i \<and> i < length src \<longrightarrow> arr ! i = - 1"
  shows "dim_map_loop src dst [k..<length src] arr =
     (if set (drop k src) \<subseteq> set dst
      then Inr (take k arr @ map (\<lambda>c. int (position c dst)) (drop k src))
      else Inl (InvalidArgument (src @ '' is not a permutation of '' @ dst)))"
  using assms
proof (induction "length src - k" arbitrary: k arr)
  case 0
  then show ?case by simp
next
  case (Suc m)
  then have k: "k < length src" by simp
  have unfold: "drop k src = src ! k # drop (Suc k) src"
    using k by (simp add: Cons_nth_drop_Suc)
  show ?case
  proof (cases "src ! k \<in> set dst")
    case False
    then show ?thesis
      using k Suc.prems by (simp add: upt_conv_Cons unfold dim_map_scan_all del: upt_Suc)
  next
    case True
    let ?arr = "arr[k := int (position (src ! k) dst)]"
    have "dim_map_loop src dst [Suc k..<length src] ?arr =
       (if set (drop (Suc k) src) \<subseteq> set dst
        then Inr (take (Suc k) ?arr @ map (\<lambda>c. int (position c dst)) (drop (Suc k) src))
        else Inl (InvalidArgument (src @ '' is not a permutation of '' @ dst)))"
      using Suc.hyps(1) [of "Suc k" ?arr] Suc.hyps(2) Suc.prems k by simp
    moreover have "take (Suc k) ?arr = take k arr @ [int (position (src ! k) dst)]"
      using k Suc.prems(1) by (simp add: take_Suc_conv_app_nth)
    ultimately show ?thesis
      using k True Suc.prems(1)
      by (simp add: upt_conv_Cons unfold dim_map_scan_all del: upt_Suc)
  qed
qed

lemma DataFormatDimMapOp_eq:
  assumes "length src = 4" and "length dst = 4"
  shows "DataFormatDimMapOp src dst =
     (if set src \<subseteq> set dst then Inr (map (\<lambda>c. int (position c dst)) src)
      else Inl (InvalidArgument (src @ '' is not a permutation of '' @ dst)))"
proof -
  have "dim_map_loop src dst [0..<length src] [- 1, - 1, - 1, - 1] =
     (if set (drop 0 src) \<subseteq> set dst
      then Inr (take 0 [- 1, - 1, - 1, - 1] @ map (\<lambda>c. int (position c dst)) (drop 0 src))
      else Inl (InvalidArgument (src @ '' is not a permutation of '' @ dst)))"
    by (rule dim_map_loop_from) (auto simp: assms nth_Cons split: nat.splits)
  then show ?thesis
    using assms by (simp add: DataFormatDimMapOp_def)
qed

lemma DataFormatDimMapOp_Inr:
  assumes "DataFormatDimMapOp src dst = Inr t"
  shows "length src = 4 \<and> length dst = 4 \<and> set src \<subseteq> set dst \<and>
    t = map (\<lambda>c. int (position c dst)) src"
proof -
  have lens: "length src = 4 \<and> length dst = 4"
    using assms by (auto simp: DataFormatDimMapOp_def split: if_splits)
  then show ?thesis
    using assms by (auto simp: DataFormatDimMapOp_eq split: if_splits)
qed

text \<open>
  What the constructor does check: it fails exactly when some source symbol is missing
  from the destination string. Every table entry is in \<open>[0,4)\<close>; the entries are
  pairwise distinct when the source symbols are; and a source string of four distinct
  symbols is rejected unless the destination is a permutation of it.
\<close>

lemma DataFormatDimMapOp_fails_iff:
  assumes "length src = 4" and "length dst = 4"
  shows "(\<exists>e. DataFormatDimMapOp src dst = Inl e) = (\<not> set src \<subseteq> set dst)"
  by (simp add: DataFormatDimMapOp_eq [OF assms])

lemma DataFormatDimMapOp_table_in_range:
  assumes "DataFormatDimMapOp src dst = Inr t" and "i < 4"
  shows "0 \<le> t ! i \<and> t ! i < 4"
proof -
  note ctor = DataFormatDimMapOp_Inr [OF assms(1)]
  have "src ! i \<in> set src"
    using assms(2) ctor by (intro nth_mem) simp
  then have "src ! i \<in> set dst"
    using ctor by blast
  then have "position (src ! i) dst < 4"
    using position_less [of "src ! i" dst] ctor by simp
  moreover have "t ! i = int (position (src ! i) dst)"
    using ctor assms(2) by simp
  ultimately show ?thesis
    by simp
qed

lemma DataFormatDimMapOp_table_distinct:
  assumes "DataFormatDimMapOp src dst = Inr t" and "distinct src"
  shows "distinct t"
proof -
  note ctor = DataFormatDimMapOp_Inr [OF assms(1)]
  have "inj_on (\<lambda>c. int (position c dst)) (set src)"
  proof (rule inj_onI)
    fix c d
    assume c: "c \<in> set src" and d: "d \<in> set src"
      and eq: "int (position c dst) = int (position d dst)"
    have mc: "c \<in> set dst" and md: "d \<in> set dst"
      using c d ctor by blast+
    have "c = dst ! position c dst"
      by (rule nth_position [OF mc, symmetric])
    also have "\<dots> = dst ! position d dst"
      using eq by simp
    also have "\<dots> = d"
      by (rule nth_position [OF md])
    finally show "c = d" .
  qed
  then have "distinct (map (\<lambda>c. int (position c dst)) src)"
    using assms(2) by (simp add: distinct_map)
  then show ?thesis
    using ctor by simp
qed

lemma DataFormatDimMapOp_rejects_distinct_source:
  assumes "length src = 4" and "length dst = 4" and "distinct src"
    and "\<not> is_permutation_of src dst"
  shows "DataFormatDimMapOp src dst =
    Inl (InvalidArgument (src @ '' is not a permutation of '' @ dst))"
proof -
  have "\<not> set src \<subseteq> set dst"
  proof
    assume sub: "set src \<subseteq> set dst"
    have "card (set src) = 4"
      using distinct_card [OF assms(3)] by (simp only: assms(1))
    moreover have "card (set src) \<le> card (set dst)"
      using sub by (intro card_mono) simp_all
    moreover have "card (set dst) \<le> 4"
      using card_length [of dst] by (simp only: assms(2))
    ultimately have card: "card (set dst) = 4" "card (set src) = card (set dst)"
      by simp_all
    have same: "set src = set dst"
      using sub card(2) by (intro card_subset_eq) simp_all
    have "distinct dst"
      by (rule card_distinct) (simp only: card(1) assms(2))
    then have "mset src = mset dst"
      using assms(3) same by (simp only: set_eq_iff_mset_eq_distinct [symmetric])
    then show False
      using assms(4) by (simp only: is_permutation_of_def)
  qed
  then show ?thesis
    by (simp add: DataFormatDimMapOp_eq [OF assms(1,2)])
qed

text \<open>
  C1. The claim: every pair of 4-character strings that are not permutations of each
  other is rejected by the constructor of DataFormatDimMapOp. The constructor only looks
  for each source symbol in the destination string: the source \<open>NNNN\<close> is not a
  permutation of \<open>NHWC\<close>, and the constructor accepts the pair with the table
  \<open>{0, 0, 0, 0}\<close>.
\<close>

theorem C1_repeated_source_symbol_accepted:
  "\<not> is_permutation_of ''NNNN'' ''NHWC'' \<and>
   DataFormatDimMapOp ''NNNN'' ''NHWC'' = Inr [0, 0, 0, 0]"
proof
  show "\<not> is_permutation_of ''NNNN'' ''NHWC''"
  proof
    assume "is_permutation_of ''NNNN'' ''NHWC''"
    then have "set ''NNNN'' = set ''NHWC''"
      unfolding is_permutation_of_def by (rule mset_eq_setD)
    then show False by auto
  qed
  show "DataFormatDimMapOp ''NNNN'' ''NHWC'' = Inr [0, 0, 0, 0]"
    by (simp add: DataFormatDimMapOp_def)
qed

text \<open>
  C2. The claim: whenever the constructor of DataFormatDimMapOp succeeds on 4-character
  strings, the table is a bijection on \<open>{0, 1, 2, 3}\<close>. For the source \<open>NHHC\<close> and the
  destination \<open>NHWC\<close> the constructor succeeds and the table \<open>{0, 1, 1, 3}\<close> has the
  entry 1 twice and no entry 2.
\<close>

theorem C2_table_not_injective:
  "DataFormatDimMapOp ''NHHC'' ''NHWC'' = Inr [0, 1, 1, 3] \<and>
   \<not> distinct [0, 1, 1, 3 :: int] \<and> 2 \<notin> set [0, 1, 1, 3 :: int]"
  by (simp add: DataFormatDimMapOp_def)

subsection \<open>The computation emitted by DataFormatDimMapOp\<close>

lemma wrap_in_range: "in_range t v \<Longrightarrow> wrap t v = v"
  by (cases t) (simp_all add: wrap_def in_range_def signed_take_bit_int_eq_self)

lemma in_range_wrap: "in_range t (wrap t v)"
  using signed_take_bit_int_greater_eq_minus_exp [of 31 v] signed_take_bit_int_less_exp [of 31 v]
    signed_take_bit_int_greater_eq_minus_exp [of 63 v] signed_take_bit_int_less_exp [of 63 v]
  by (cases t) (simp_all add: wrap_def in_range_def)

lemma wrap_cong_mod: "(wrap t v - v) mod 2 ^ bits t = 0"
proof -
  have "take_bit (Suc (bits t - 1)) (signed_take_bit (bits t - 1) v) = take_bit (Suc (bits t - 1)) v"
    by (rule take_bit_signed_take_bit) simp
  moreover have "Suc (bits t - 1) = bits t" by (cases t) simp_all
  ultimately have "wrap t v mod 2 ^ bits t = v mod 2 ^ bits t"
    by (simp add: wrap_def take_bit_eq_mod)
  then show ?thesis
    by (metis mod_eq_dvd_iff mod_0_imp_dvd dvd_imp_mod_0)
qed

lemma src_indices_eq:
  "src_indices input =
     \<lparr>element_type = S32, dimensions = dimensions input,
      data = map (\<lambda>v. trunc_rem (wrap S32 (wrap S32 v + 4)) 4) (data input)\<rparr>"
  by (simp add: src_indices_def Rem_def Add_def elementwise_def four_def ConstantR0_def
      ConvertElementType_def)

lemma pick_less: "0 < n \<Longrightarrow> pick oob n i < n"
  by (auto simp: pick_def)

lemma slice_ConstantR1: "j < length t \<Longrightarrow> slice (ConstantR1 t) j = [t ! j]"
  by (simp add: slice_def slice_size_def ConstantR1_def take_Suc_conv_app_nth Cons_nth_drop_Suc [symmetric])

lemma concat_singletons: "concat (map (\<lambda>x. [f x]) xs) = map f xs"
  by (induction xs) simp_all

lemma DataFormatDimMapOp_Compile_eq:
  assumes "0 < length t"
  shows "DataFormatDimMapOp_Compile oob t input =
     \<lparr>element_type = element_type input, dimensions = dimensions input,
      data = map (\<lambda>v. wrap (element_type input)
                     (t ! pick oob (length t) (trunc_rem (wrap S32 (wrap S32 v + 4)) 4)))
                 (data input)\<rparr>"
proof -
  have "concat (map (\<lambda>x. slice (ConstantR1 t) (pick oob (length t) (f x))) xs) =
        map (\<lambda>x. t ! pick oob (length t) (f x)) xs" for f :: "int \<Rightarrow> int" and xs
    using assms by (simp add: slice_ConstantR1 pick_less concat_singletons)
  then show ?thesis
    by (simp add: DataFormatDimMapOp_Compile_def TorchIndexSelect_def src_indices_eq
        ConvertElementType_def ConstantR1_def [of t, THEN arg_cong [of _ _ dimensions]] o_def)
qed

lemma trunc_rem_nonneg: "0 \<le> a \<Longrightarrow> trunc_rem a 4 = a mod 4"
  by (cases "a = 0") (simp_all add: trunc_rem_def)

lemma trunc_rem_neg: "a < 0 \<Longrightarrow> trunc_rem a 4 = - ((- a) mod 4)"
  by (simp add: trunc_rem_def)

lemma wrap_S32_small: "- 2147483648 \<le> v \<Longrightarrow> v < 2147483648 \<Longrightarrow> wrap S32 v = v"
  by (rule wrap_in_range) (simp add: in_range_def)

lemma normalize_small:
  assumes "- 4 \<le> v" and "v < 4"
  shows "trunc_rem (wrap S32 (wrap S32 v + 4)) 4 = (v + 4) mod 4"
  using assms by (simp add: wrap_S32_small trunc_rem_nonneg)

lemma DataFormatDimMapOp_Compile_nth:
  assumes "0 < length t" and "k < length (data input)"
  shows "data (DataFormatDimMapOp_Compile oob t input) ! k =
    wrap (element_type input)
      (t ! pick oob (length t) (trunc_rem (wrap S32 (wrap S32 (data input ! k) + 4)) 4))"
  using assms by (simp add: DataFormatDimMapOp_Compile_eq)

text \<open>
  C3. For the kernel constructed with \<open>src_format = NHWC\<close> and \<open>dst_format = NCHW\<close> the
  table is \<open>{0, 2, 3, 1}\<close>; the emitted computation keeps the shape and the element type
  of the input, maps each input element \<open>i\<close> in \<open>[0,4)\<close> to the position of
  \<open>src_format[i]\<close> in \<open>dst_format\<close>, and maps the input \<open>[0,1,2,3]\<close> to \<open>[0,2,3,1]\<close>.
\<close>

theorem C3_nhwc_to_nchw:
  assumes "DataFormatDimMapOp ''NHWC'' ''NCHW'' = Inr dst_idx"
  shows "dst_idx = [0, 2, 3, 1] \<and>
    element_type (DataFormatDimMapOp_Compile oob dst_idx input) = element_type input \<and>
    dimensions (DataFormatDimMapOp_Compile oob dst_idx input) = dimensions input \<and>
    length (data (DataFormatDimMapOp_Compile oob dst_idx input)) = length (data input) \<and>
    (\<forall>k. k < length (data input) \<and> 0 \<le> data input ! k \<and> data input ! k < 4 \<longrightarrow>
       data (DataFormatDimMapOp_Compile oob dst_idx input) ! k =
         int (position (''NHWC'' ! nat (data input ! k)) ''NCHW'')) \<and>
    DataFormatDimMapOp_Compile oob dst_idx
        \<lparr>element_type = ty, dimensions = [4], data = [0, 1, 2, 3]\<rparr> =
      \<lparr>element_type = ty, dimensions = [4], data = [0, 2, 3, 1]\<rparr>"
proof -
  let ?t = "[0, 2, 3, 1] :: int list"
  have table: "dst_idx = ?t"
    using assms by (simp add: DataFormatDimMapOp_def)
  have element: "wrap (element_type input)
      (?t ! pick oob (length ?t) (trunc_rem (wrap S32 (wrap S32 v + 4)) 4)) =
      int (position (''NHWC'' ! nat v) ''NCHW'')" if "0 \<le> v \<and> v < 4" for v :: int
  proof -
    from that have "v = 0 \<or> v = 1 \<or> v = 2 \<or> v = 3" by arith
    then show ?thesis
      by (cases "element_type input") (auto simp: trunc_rem_def pick_def wrap_def)
  qed
  have ty: "element_type (DataFormatDimMapOp_Compile oob ?t input) = element_type input"
    and dims: "dimensions (DataFormatDimMapOp_Compile oob ?t input) = dimensions input"
    and len: "length (data (DataFormatDimMapOp_Compile oob ?t input)) = length (data input)"
    by (simp_all add: DataFormatDimMapOp_Compile_eq)
  have elems: "\<forall>k. k < length (data input) \<and> 0 \<le> data input ! k \<and> data input ! k < 4 \<longrightarrow>
       data (DataFormatDimMapOp_Compile oob ?t input) ! k =
         int (position (''NHWC'' ! nat (data input ! k)) ''NCHW'')"
  proof (intro allI impI)
    fix k
    assume k: "k < length (data input) \<and> 0 \<le> data input ! k \<and> data input ! k < 4"
    then have "data (DataFormatDimMapOp_Compile oob ?t input) ! k =
        wrap (element_type input)
          (?t ! pick oob (length ?t)
                  (trunc_rem (wrap S32 (wrap S32 (data input ! k) + 4)) 4))"
      by (intro DataFormatDimMapOp_Compile_nth) simp_all
    also have "\<dots> = int (position (''NHWC'' ! nat (data input ! k)) ''NCHW'')"
      using k by (intro element) simp
    finally show "data (DataFormatDimMapOp_Compile oob ?t input) ! k =
        int (position (''NHWC'' ! nat (data input ! k)) ''NCHW'')" .
  qed
  have example: "DataFormatDimMapOp_Compile oob ?t
        \<lparr>element_type = ty, dimensions = [4], data = [0, 1, 2, 3]\<rparr> =
      \<lparr>element_type = ty, dimensions = [4], data = [0, 2, 3, 1]\<rparr>"
    by (cases ty) (simp_all add: DataFormatDimMapOp_Compile_eq trunc_rem_def pick_def wrap_def)
  show ?thesis
    unfolding table by (intro conjI refl ty dims len elems example)
qed

theorem C3_nhwc_to_nchw_witness:
  "DataFormatDimMapOp ''NHWC'' ''NCHW'' = Inr [0, 2, 3, 1] \<and>
   data (DataFormatDimMapOp_Compile clamp [0, 2, 3, 1]
          \<lparr>element_type = S64, dimensions = [2, 2], data = [3, 0, 2, 1]\<rparr>) ! 2 = 3 \<and>
   position (''NHWC'' ! 2) ''NCHW'' = 3 \<and>
   DataFormatDimMapOp_Compile clamp [0, 2, 3, 1]
        \<lparr>element_type = S32, dimensions = [4], data = [0, 1, 2, 3]\<rparr> =
      \<lparr>element_type = S32, dimensions = [4], data = [0, 2, 3, 1]\<rparr>"
proof -
  have h: "DataFormatDimMapOp ''NHWC'' ''NCHW'' = Inr [0, 2, 3, 1]"
    by (simp add: DataFormatDimMapOp_def)
  show ?thesis
    using h C3_nhwc_to_nchw [OF h, of clamp
        "\<lparr>element_type = S64, dimensions = [2, 2], data = [3, 0, 2, 1]\<rparr>" S32]
    by simp
qed

text \<open>
  C4. An input element \<open>v\<close> in \<open>[-4,4)\<close> is normalised to \<open>(v + 4) mod 4\<close>, which lies
  in \<open>[0,4)\<close>, and the output element is the table entry at that index; with
  \<open>src_format = NHWC\<close> and \<open>dst_format = NCHW\<close> the input \<open>[-1,-2,-3,-4]\<close> gives the
  output of the input \<open>[3,2,1,0]\<close>.
\<close>

theorem C4_negative_indices_wrap:
  assumes "k < length (data input)" and "- 4 \<le> data input ! k" and "data input ! k < 4"
    and "DataFormatDimMapOp src_format dst_format = Inr dst_idx"
  shows "data (src_indices input) ! k = (data input ! k + 4) mod 4 \<and>
    0 \<le> data (src_indices input) ! k \<and> data (src_indices input) ! k < 4 \<and>
    data (DataFormatDimMapOp_Compile oob dst_idx input) ! k =
      wrap (element_type input) (dst_idx ! nat ((data input ! k + 4) mod 4)) \<and>
    (src_format = ''NHWC'' \<and> dst_format = ''NCHW'' \<longrightarrow>
      DataFormatDimMapOp_Compile oob dst_idx
          \<lparr>element_type = ty, dimensions = [4], data = [- 1, - 2, - 3, - 4]\<rparr> =
        DataFormatDimMapOp_Compile oob dst_idx
          \<lparr>element_type = ty, dimensions = [4], data = [3, 2, 1, 0]\<rparr>)"
proof -
  have len: "length dst_idx = 4"
    using DataFormatDimMapOp_Inr [OF assms(4)] by simp
  have idx: "data (src_indices input) ! k = (data input ! k + 4) mod 4"
    using assms(1-3) by (simp add: src_indices_eq normalize_small)
  have bounds: "0 \<le> (data input ! k + 4) mod 4" "(data input ! k + 4) mod 4 < 4"
    by simp_all
  have out: "data (DataFormatDimMapOp_Compile oob dst_idx input) ! k =
      wrap (element_type input) (dst_idx ! nat ((data input ! k + 4) mod 4))"
    using assms(1-3) bounds len
    by (simp add: DataFormatDimMapOp_Compile_eq normalize_small pick_def)
  have same: "DataFormatDimMapOp_Compile oob dst_idx
          \<lparr>element_type = ty, dimensions = [4], data = [- 1, - 2, - 3, - 4]\<rparr> =
        DataFormatDimMapOp_Compile oob dst_idx
          \<lparr>element_type = ty, dimensions = [4], data = [3, 2, 1, 0]\<rparr>"
    using len by (simp add: DataFormatDimMapOp_Compile_eq normalize_small)
  show ?thesis
    using idx bounds out same by simp
qed

theorem C4_negative_indices_wrap_witness:
  "data (src_indices \<lparr>element_type = S32, dimensions = [4], data = [- 1, - 2, - 3, - 4]\<rparr>) ! 1 = 2 \<and>
   data (DataFormatDimMapOp_Compile clamp [0, 2, 3, 1]
          \<lparr>element_type = S32, dimensions = [4], data = [- 1, - 2, - 3, - 4]\<rparr>) ! 1 = 3 \<and>
   DataFormatDimMapOp_Compile clamp [0, 2, 3, 1]
          \<lparr>element_type = S32, dimensions = [4], data = [- 1, - 2, - 3, - 4]\<rparr> =
   DataFormatDimMapOp_Compile clamp [0, 2, 3, 1]
          \<lparr>element_type = S32, dimensions = [4], data = [3, 2, 1, 0]\<rparr>"
proof -
  have h: "DataFormatDimMapOp ''NHWC'' ''NCHW'' = Inr [0, 2, 3, 1]"
    by (simp add: DataFormatDimMapOp_def)
  show ?thesis
    using C4_negative_indices_wrap [OF _ _ _ h, of 1
        "\<lparr>element_type = S32, dimensions = [4], data = [- 1, - 2, - 3, - 4]\<rparr>" clamp S32]
    by (simp add: wrap_def DataFormatDimMapOp_Compile_eq src_indices_eq trunc_rem_def pick_def)
qed

text \<open>
  C9. The claim: an input element \<open>v\<close> with \<open>v + 4 < 0\<close> is normalised to a negative
  value, so the index into the table falls outside \<open>[0,4)\<close>. For \<open>v = -8\<close> the sum is
  \<open>-4\<close>, its truncating remainder by four is \<open>0\<close>, and the index is inside the table.
\<close>

theorem C9_multiple_of_four_counterexample:
  "- 8 + 4 < (0 :: int) \<and>
   data (src_indices \<lparr>element_type = S32, dimensions = [1], data = [- 8]\<rparr>) = [0] \<and>
   (0 :: int) \<in> {0..<4}"
  by (simp add: src_indices_eq wrap_def trunc_rem_def)

text \<open>
  C9, amended. For an input element \<open>v \<le> -5\<close> that fits 32 bits the normalised value is
  the truncating remainder \<open>- ((- (v + 4)) mod 4)\<close>. When \<open>v\<close> is not a multiple of four
  it is one of \<open>-3, -2, -1\<close>, outside \<open>[0,4)\<close>; when \<open>v\<close> is a multiple of four it is
  \<open>0\<close>. So the index is inside the table exactly when the truncating remainder of
  \<open>v + 4\<close> is not negative.
\<close>

theorem C9_truncating_remainder:
  assumes "k < length (data input)" and "in_range S32 (data input ! k)"
    and "data input ! k \<le> - 5"
  shows "data (src_indices input) ! k = trunc_rem (data input ! k + 4) 4 \<and>
    data (src_indices input) ! k = - ((- (data input ! k + 4)) mod 4) \<and>
    (\<not> 4 dvd data input ! k \<longrightarrow>
       - 4 < data (src_indices input) ! k \<and> data (src_indices input) ! k < 0) \<and>
    (4 dvd data input ! k \<longrightarrow> data (src_indices input) ! k = 0) \<and>
    ((0 \<le> data (src_indices input) ! k \<and> data (src_indices input) ! k < 4) =
       (0 \<le> trunc_rem (data input ! k + 4) 4))"
proof -
  let ?v = "data input ! k"
  have v: "wrap S32 ?v = ?v"
    using assms(2) by (rule wrap_in_range)
  have "in_range S32 (?v + 4)"
    using assms(2,3) by (simp add: in_range_def)
  then have sum: "wrap S32 (?v + 4) = ?v + 4"
    by (rule wrap_in_range)
  have idx: "data (src_indices input) ! k = trunc_rem (?v + 4) 4"
    using assms(1) by (simp add: src_indices_eq v sum)
  have neg: "trunc_rem (?v + 4) 4 = - ((- (?v + 4)) mod 4)"
    using assms(3) by (intro trunc_rem_neg) simp
  have bounds: "0 \<le> (- (?v + 4)) mod 4" "(- (?v + 4)) mod 4 < 4"
    by simp_all
  have zero: "((- (?v + 4)) mod 4 = 0) = (4 dvd ?v)"
    by presburger
  show ?thesis
    unfolding idx neg using bounds zero by auto
qed

theorem C9_truncating_remainder_witness:
  "data (src_indices \<lparr>element_type = S64, dimensions = [2], data = [- 5, - 8]\<rparr>) ! 0 = - 1 \<and>
   data (src_indices \<lparr>element_type = S64, dimensions = [2], data = [- 5, - 8]\<rparr>) ! 1 = 0 \<and>
   \<not> 4 dvd (- 5 :: int)"
  using
    C9_truncating_remainder [of 0 "\<lparr>element_type = S64, dimensions = [2], data = [- 5, - 8]\<rparr>"]
    C9_truncating_remainder [of 1 "\<lparr>element_type = S64, dimensions = [2], data = [- 5, - 8]\<rparr>"]
  by (simp add: in_range_def trunc_rem_def)

text \<open>
  C10. For a 64-bit input the kernel first converts each element to a 32-bit signed
  integer: the converted value fits 32 bits and differs from the element by a multiple of
  \<open>2 ^ 32\<close>. The sum with four and the remainder are taken on that 32-bit value, and the
  entry read from the table is converted again to the 64-bit type of the input, which
  keeps the value of an entry that fits 32 bits. The type of the computation, 32 bits, is
  narrower than the type of the input.
\<close>

theorem C10_narrowing_conversion:
  assumes "element_type input = S64" and "k < length (data input)"
    and "DataFormatDimMapOp src_format dst_format = Inr dst_idx"
  shows "element_type (ConvertElementType input S32) = S32 \<and>
    bits S32 < bits (element_type input) \<and>
    in_range S32 (data (ConvertElementType input S32) ! k) \<and>
    (data (ConvertElementType input S32) ! k - data input ! k) mod 2 ^ 32 = 0 \<and>
    data (src_indices input) ! k =
      trunc_rem (wrap S32 (data (ConvertElementType input S32) ! k + 4)) 4 \<and>
    element_type (DataFormatDimMapOp_Compile oob dst_idx input) = S64 \<and>
    data (DataFormatDimMapOp_Compile oob dst_idx input) ! k =
      dst_idx ! pick oob 4 (data (src_indices input) ! k)"
proof -
  note ctor = DataFormatDimMapOp_Inr [OF assms(3)]
  have len: "length dst_idx = 4"
    using ctor by simp
  have conv: "data (ConvertElementType input S32) ! k = wrap S32 (data input ! k)"
    using assms(2) by (simp add: ConvertElementType_def)
  have cong: "(wrap S32 (data input ! k) - data input ! k) mod 2 ^ 32 = 0"
    using wrap_cong_mod [of S32 "data input ! k"] by simp
  have idx: "data (src_indices input) ! k =
      trunc_rem (wrap S32 (wrap S32 (data input ! k) + 4)) 4"
    using assms(2) by (simp add: src_indices_eq)
  have entry: "in_range S64 (dst_idx ! j)" if "j < 4" for j
  proof -
    have "dst_idx ! j = int (position (src_format ! j) dst_format)"
      using ctor that by simp
    moreover have "src_format ! j \<in> set dst_format"
      using ctor that nth_mem [of j src_format] by auto
    then have "position (src_format ! j) dst_format < 4"
      using ctor position_less [of "src_format ! j" dst_format] by simp
    ultimately show ?thesis
      by (simp add: in_range_def)
  qed
  have "pick oob 4 (data (src_indices input) ! k) < 4"
    by (rule pick_less) simp
  then have widen: "wrap S64 (dst_idx ! pick oob 4 (data (src_indices input) ! k)) =
      dst_idx ! pick oob 4 (data (src_indices input) ! k)"
    by (intro wrap_in_range entry)
  have out: "data (DataFormatDimMapOp_Compile oob dst_idx input) ! k =
      wrap S64 (dst_idx ! pick oob 4 (data (src_indices input) ! k))"
    using assms(1,2) len by (simp add: DataFormatDimMapOp_Compile_nth idx)
  have ty: "element_type (DataFormatDimMapOp_Compile oob dst_idx input) = S64"
    using assms(1) len by (simp add: DataFormatDimMapOp_Compile_eq)
  show ?thesis
    using assms(1) conv cong idx out widen ty in_range_wrap [of S32 "data input ! k"]
    by (simp add: ConvertElementType_def)
qed

theorem C10_narrowing_conversion_witness:
  "data (ConvertElementType
           \<lparr>element_type = S64, dimensions = [1], data = [4294967297]\<rparr> S32) = [1] \<and>
   data (src_indices \<lparr>element_type = S64, dimensions = [1], data = [4294967297]\<rparr>) = [1] \<and>
   DataFormatDimMapOp_Compile clamp [0, 2, 3, 1]
       \<lparr>element_type = S64, dimensions = [1], data = [4294967297]\<rparr> =
     \<lparr>element_type = S64, dimensions = [1], data = [2]\<rparr>"
proof -
  have h: "DataFormatDimMapOp ''NHWC'' ''NCHW'' = Inr [0, 2, 3, 1]"
    by (simp add: DataFormatDimMapOp_def)
  show ?thesis
    using C10_narrowing_conversion [OF _ _ h, of
        "\<lparr>element_type = S64, dimensions = [1], data = [4294967297]\<rparr>" 0 clamp]
    by (simp add: ConvertElementType_def src_indices_eq DataFormatDimMapOp_Compile_eq
        wrap_def trunc_rem_def pick_def)
qed

subsection \<open>The index list built by DataFormatVecPermuteOp\<close>

lemma vec_permute_scan_from:
  "k \<le> length dst \<Longrightarrow>
   vec_permute_scan src dst i [k..<length dst] arr =
     (if src ! i \<in> set (drop k dst)
      then arr[k + position (src ! i) (drop k dst) := Some (int i)] else arr)"
proof (induction "length dst - k" arbitrary: k)
  case 0
  then show ?case by simp
next
  case (Suc m)
  then have k: "k < length dst" by simp
  have step: "vec_permute_scan src dst i [Suc k..<length dst] arr =
     (if src ! i \<in> set (drop (Suc k) dst)
      then arr[Suc k + position (src ! i) (drop (Suc k) dst) := Some (int i)] else arr)"
    using Suc.hyps(1) [of "Suc k"] Suc.hyps(2) k by simp
  have unfold: "drop k dst = dst ! k # drop (Suc k) dst"
    using k by (simp add: Cons_nth_drop_Suc)
  show ?case
    using k by (auto simp: upt_conv_Cons unfold step simp del: upt_Suc)
qed

lemma vec_permute_scan_all:
  assumes "length dst = 4"
  shows "vec_permute_scan src dst i [0..<4] arr =
     (if src ! i \<in> set dst then arr[position (src ! i) dst := Some (int i)] else arr)"
  using vec_permute_scan_from [of 0 dst src i arr] by (simp add: assms del: upt_Suc)

lemma vec_permute_loop_step:
  "k < n \<Longrightarrow>
   vec_permute_loop src dst [k..<n] arr =
     vec_permute_loop src dst [Suc k..<n] (vec_permute_scan src dst k [0..<4] arr)"
  by (simp only: upt_conv_Cons vec_permute_loop.simps)

lemma vec_permute_loop_from:
  assumes "length dst = 4" and "length arr = 4" and "k \<le> n"
    and "\<forall>i<n. src ! i \<in> set dst"
    and "inj_on (\<lambda>i. position (src ! i) dst) {..<n}"
    and "\<forall>i<k. arr ! position (src ! i) dst = Some (int i)"
  shows "length (vec_permute_loop src dst [k..<n] arr) = 4 \<and>
    (\<forall>i<n. vec_permute_loop src dst [k..<n] arr ! position (src ! i) dst = Some (int i))"
  using assms(2,3,6)
proof (induction "n - k" arbitrary: k arr)
  case 0
  then show ?case by simp
next
  case (Suc m)
  then have k: "k < n" by simp
  let ?p = "\<lambda>i. position (src ! i) dst"
  let ?arr = "arr[?p k := Some (int k)]"
  have in_dst: "src ! k \<in> set dst"
    using assms(4) k by simp
  then have pk: "?p k < 4"
    using position_less [of "src ! k" dst] assms(1) by simp
  have written: "\<forall>i<Suc k. ?arr ! ?p i = Some (int i)"
  proof (intro allI impI)
    fix i
    assume i: "i < Suc k"
    show "?arr ! ?p i = Some (int i)"
    proof (cases "i = k")
      case True
      then show ?thesis using pk Suc.prems(1) by simp
    next
      case False
      then have "i < k" using i by simp
      moreover from this have "?p i \<noteq> ?p k"
        using assms(5) k by (auto simp: inj_on_def)
      ultimately show ?thesis
        using Suc.prems(3) by simp
    qed
  qed
  have rest: "length (vec_permute_loop src dst [Suc k..<n] ?arr) = 4 \<and>
    (\<forall>i<n. vec_permute_loop src dst [Suc k..<n] ?arr ! ?p i = Some (int i))"
    using Suc.hyps(1) [of "Suc k" ?arr] Suc.hyps(2) Suc.prems(1) k written by simp
  have unroll: "vec_permute_loop src dst [k..<n] arr = vec_permute_loop src dst [Suc k..<n] ?arr"
    using in_dst
    by (simp only: vec_permute_loop_step [OF k] vec_permute_scan_all [OF assms(1)] if_True)
  show ?case
    unfolding unroll by (rule rest)
qed

lemma those_map_Some: "those (map (\<lambda>x. Some (f x)) xs) = Some (map f xs)"
  by (induction xs) simp_all

lemma distinct_same_set:
  assumes "distinct src" and "set src = set dst" and "length src = length dst"
  shows "distinct dst"
proof -
  have "card (set dst) = length dst"
    using assms distinct_card [of src] by simp
  then show ?thesis
    by (rule card_distinct)
qed

lemma vec_permute_loop_eq:
  assumes "length src = 4" and "length dst = 4" and "distinct src" and "set src = set dst"
  shows "vec_permute_loop src dst [0..<4] [None, None, None, None] =
    map (\<lambda>c. Some (int (position c src))) dst"
proof -
  have dst: "distinct dst"
    by (rule distinct_same_set [OF assms(3,4)]) (simp only: assms(1,2))
  have inj: "inj_on (\<lambda>i. position (src ! i) dst) {..<4}"
  proof (rule inj_onI)
    fix i j
    assume ij: "i \<in> {..<4}" "j \<in> {..<4}"
      and eq: "position (src ! i) dst = position (src ! j) dst"
    have "src ! i \<in> set src" "src ! j \<in> set src"
      using ij assms(1) by (simp_all add: nth_mem)
    then have mi: "src ! i \<in> set dst" and mj: "src ! j \<in> set dst"
      using assms(4) by simp_all
    have "src ! i = dst ! position (src ! i) dst"
      by (rule nth_position [OF mi, symmetric])
    also have "\<dots> = dst ! position (src ! j) dst"
      by (simp only: eq)
    also have "\<dots> = src ! j"
      by (rule nth_position [OF mj])
    finally have "src ! i = src ! j" .
    then show "i = j"
      using ij assms(1,3) by (simp add: nth_eq_iff_index_eq)
  qed
  have all: "\<forall>i<4. src ! i \<in> set dst"
  proof (intro allI impI)
    fix i :: nat
    assume "i < 4"
    then have "src ! i \<in> set src"
      using assms(1) by (intro nth_mem) simp
    then show "src ! i \<in> set dst"
      using assms(4) by simp
  qed
  define r where "r = vec_permute_loop src dst [0..<4] [None, None, None, None]"
  have r: "length r = 4 \<and> (\<forall>i<4. r ! position (src ! i) dst = Some (int i))"
    unfolding r_def
  proof (rule vec_permute_loop_from [OF assms(2) _ _ all inj])
    show "length [None, None, None, None :: int option] = 4" by simp
    show "0 \<le> (4 :: nat)" by simp
    show "\<forall>i<0. [None, None, None, None] ! position (src ! i) dst = Some (int i)" by simp
  qed
  have "r = map (\<lambda>c. Some (int (position c src))) dst"
  proof (rule nth_equalityI)
    show "length r = length (map (\<lambda>c. Some (int (position c src))) dst)"
      using r assms(2) by simp
  next
    fix j
    assume "j < length r"
    then have j: "j < 4" using r by simp
    let ?i = "position (dst ! j) src"
    have "dst ! j \<in> set dst"
      using j assms(2) by (intro nth_mem) simp
    then have mem: "dst ! j \<in> set src"
      using assms(4) by simp
    have i: "?i < 4"
      using position_less [OF mem] assms(1) by simp
    have at: "src ! ?i = dst ! j"
      by (rule nth_position [OF mem])
    have "position (dst ! j) dst = j"
      using dst j assms(2) by (intro position_nth) simp_all
    then have "position (src ! ?i) dst = j"
      by (simp only: at)
    moreover have "r ! position (src ! ?i) dst = Some (int ?i)"
      using r i by blast
    ultimately have "r ! j = Some (int ?i)"
      by (simp only:)
    then show "r ! j = map (\<lambda>c. Some (int (position c src))) dst ! j"
      using j assms(2) by simp
  qed
  then show ?thesis
    unfolding r_def .
qed

subsection \<open>Gathering slices\<close>

lemma chunk_of_concat:
  "\<forall>x\<in>set xss. length x = n \<Longrightarrow> j < length xss \<Longrightarrow>
   take n (drop (j * n) (concat xss)) = xss ! j"
proof (induction xss arbitrary: j)
  case Nil
  then show ?case by simp
next
  case (Cons x xss)
  show ?case
  proof (cases j)
    case 0
    then show ?thesis using Cons.prems by simp
  next
    case (Suc m)
    then have "take n (drop (m * n) (concat xss)) = xss ! m"
      using Cons.prems by (intro Cons.IH) simp_all
    then show ?thesis
      using Suc Cons.prems(1) by simp
  qed
qed

lemma concat_chunks:
  "concat (map (\<lambda>j. take s (drop (j * s) xs)) [0..<n]) = take (n * s) xs"
proof (induction n)
  case 0
  then show ?case by simp
next
  case (Suc n)
  have "take (n * s) xs @ take s (drop (n * s) xs) = take (n * s + s) xs"
    by (simp add: take_add)
  then show ?case
    using Suc by (simp add: add.commute)
qed

lemma length_slice:
  assumes "dimensions t = n # rest" and "length (data t) = prod_list (dimensions t)"
    and "j < n"
  shows "length (slice t j) = slice_size t"
proof -
  have sz: "slice_size t = prod_list rest"
    by (simp add: slice_size_def assms(1))
  have "Suc j * prod_list rest \<le> n * prod_list rest"
    using assms(3) by (intro mult_le_mono1) simp
  then have "j * prod_list rest + prod_list rest \<le> length (data t)"
    by (simp add: assms(1,2))
  then show ?thesis
    by (simp add: slice_def sz)
qed

lemma positions_of_distinct:
  assumes "distinct s"
  shows "map (\<lambda>c. position c s) s = [0..<length s]"
proof (rule nth_equalityI)
  show "length (map (\<lambda>c. position c s) s) = length [0..<length s]" by simp
next
  fix j
  assume "j < length (map (\<lambda>c. position c s) s)"
  then have j: "j < length s" by simp
  then show "map (\<lambda>c. position c s) s ! j = [0..<length s] ! j"
    using assms by (simp add: position_nth)
qed

subsection \<open>The computation emitted by DataFormatVecPermuteOp\<close>

lemma pick_position:
  "c \<in> set s \<Longrightarrow> length s = n \<Longrightarrow> pick oob n (int (position c s)) = position c s"
  using position_less [of c s] by (simp add: pick_def)

lemma TorchIndexSelect_positions:
  assumes "dimensions input = 4 # rest" and "length src = 4" and "length dst = 4"
    and "set dst \<subseteq> set src"
  shows "TorchIndexSelect oob input (ConstantR1 (map (\<lambda>c. int (position c src)) dst)) =
    \<lparr>element_type = element_type input, dimensions = dimensions input,
     data = concat (map (\<lambda>c. slice input (position c src)) dst)\<rparr>"
proof -
  have "map (\<lambda>c. slice input (pick oob 4 (int (position c src)))) dst =
      map (\<lambda>c. slice input (position c src)) dst"
  proof (rule map_cong [OF refl])
    fix c
    assume "c \<in> set dst"
    then have "c \<in> set src" using assms(4) by blast
    then show "slice input (pick oob 4 (int (position c src))) = slice input (position c src)"
      by (simp only: pick_position [OF _ assms(2)])
  qed
  then have "concat (map (\<lambda>c. slice input (pick oob 4 (int (position c src)))) dst) =
      concat (map (\<lambda>c. slice input (position c src)) dst)"
    by (rule arg_cong)
  moreover have "TorchIndexSelect oob input (ConstantR1 (map (\<lambda>c. int (position c src)) dst)) =
    \<lparr>element_type = element_type input, dimensions = dimensions input,
     data = concat (map (\<lambda>c. slice input (pick oob 4 (int (position c src)))) dst)\<rparr>"
    by (simp add: TorchIndexSelect_def ConstantR1_def assms(1,3) o_def)
  ultimately show ?thesis
    by (simp only:)
qed

lemma DataFormatVecPermuteOp_Compile_eq:
  assumes "length src = 4" and "length dst = 4" and "distinct src" and "set src = set dst"
    and "dimensions input = [4] \<or> dimensions input = [4, 2]"
  shows "DataFormatVecPermuteOp_Compile DebugString oob
      \<lparr>member_src_format = src, member_dst_format = dst\<rparr> input =
    Inr \<lparr>element_type = element_type input, dimensions = dimensions input,
         data = concat (map (\<lambda>c. slice input (position c src)) dst)\<rparr>"
proof -
  have indices: "those (vec_permute_loop src dst [0..<4] [None, None, None, None]) =
      Some (map (\<lambda>c. int (position c src)) dst)"
    by (simp only: vec_permute_loop_eq [OF assms(1-4)] those_map_Some)
  have sub: "set dst \<subseteq> set src"
    by (simp only: assms(4) subset_refl)
  obtain rest where dims: "dimensions input = 4 # rest"
    using assms(5) by auto
  have gather: "TorchIndexSelect oob input (ConstantR1 (map (\<lambda>c. int (position c src)) dst)) =
    \<lparr>element_type = element_type input, dimensions = dimensions input,
     data = concat (map (\<lambda>c. slice input (position c src)) dst)\<rparr>"
    by (rule TorchIndexSelect_positions [OF dims assms(1,2) sub])
  have checks: "length (dimensions input) = 1 \<or> length (dimensions input) = 2"
    "dimensions input ! 0 = 4"
    "\<not> (length (dimensions input) = 2 \<and> dimensions input ! 1 \<noteq> 2)"
    using assms(5) by auto
  show ?thesis
    unfolding DataFormatVecPermuteOp_Compile_def Let_def
    by (simp only: checks indices gather VecPermuteOp.simps not_True_eq_False not_not
        if_False option.case simp_thms)
qed

lemma DataFormatVecPermuteOp_Inr:
  assumes "DataFormatVecPermuteOp FormatFromString src dst = Inr this"
  shows "this = \<lparr>member_src_format = src, member_dst_format = dst\<rparr> \<and>
    length src = 4 \<and> length dst = 4 \<and> FormatFromString src \<and> FormatFromString dst"
  using assms by (auto simp: DataFormatVecPermuteOp_def split: if_splits)

lemma format_vector_dims:
  assumes "format_vector input"
  shows "\<exists>rest. dimensions input = 4 # rest \<and> length (data input) = 4 * slice_size input"
  using assms by (auto simp: format_vector_def slice_size_def)

lemma slice_permuted:
  assumes "length src = 4" and "length dst = 4" and "set dst \<subseteq> set src"
    and "format_vector input" and "j < 4"
    and "dimensions output = dimensions input"
    and "data output = concat (map (\<lambda>c. slice input (position c src)) dst)"
  shows "slice output j = slice input (position (dst ! j) src)"
proof -
  obtain rest where dims: "dimensions input = 4 # rest"
    using format_vector_dims [OF assms(4)] by blast
  have wf: "length (data input) = prod_list (dimensions input)"
    using assms(4) by (simp add: format_vector_def)
  have size: "slice_size output = slice_size input"
    by (simp add: slice_size_def assms(6))
  have all: "\<forall>x\<in>set (map (\<lambda>c. slice input (position c src)) dst).
      length x = slice_size input"
  proof
    fix x
    assume "x \<in> set (map (\<lambda>c. slice input (position c src)) dst)"
    then obtain c where c: "c \<in> set dst" and x: "x = slice input (position c src)"
      by auto
    have "c \<in> set src" using c assms(3) by blast
    then have "position c src < 4"
      using position_less [of c src] by (simp add: assms(1))
    then show "length x = slice_size input"
      unfolding x by (rule length_slice [OF dims wf])
  qed
  have "slice output j =
      take (slice_size input)
        (drop (j * slice_size input) (concat (map (\<lambda>c. slice input (position c src)) dst)))"
    by (simp add: slice_def size assms(7))
  also have "\<dots> = map (\<lambda>c. slice input (position c src)) dst ! j"
    using all by (rule chunk_of_concat) (simp add: assms(2,5))
  also have "\<dots> = slice input (position (dst ! j) src)"
    by (simp add: assms(2,5))
  finally show ?thesis .
qed

lemma gather_in_order:
  assumes "length src = 4" and "distinct src" and "format_vector input"
  shows "concat (map (\<lambda>c. slice input (position c src)) src) = data input"
proof -
  have len: "length (data input) = 4 * slice_size input"
    using format_vector_dims [OF assms(3)] by blast
  have "map (\<lambda>c. slice input (position c src)) src =
      map (slice input) (map (\<lambda>c. position c src) src)"
    by simp
  also have "\<dots> = map (slice input) [0..<length src]"
    by (simp only: positions_of_distinct [OF assms(2)])
  also have "\<dots> =
      map (\<lambda>j. take (slice_size input) (drop (j * slice_size input) (data input))) [0..<4]"
    unfolding assms(1) by (rule map_cong [OF refl]) (simp only: slice_def)
  finally have "concat (map (\<lambda>c. slice input (position c src)) src) =
      take (4 * slice_size input) (data input)"
    by (simp only: concat_chunks)
  then show ?thesis
    by (simp add: len)
qed

text \<open>
  C5. For a kernel built from two format strings that are permutations of the same four
  distinct symbols, and an input of rank 1 and length 4 or of shape \<open>[4, 2]\<close>, the output
  has the shape and element type of the input and its slice at first-axis position \<open>j\<close>
  is the input's slice at the position in \<open>src_format\<close> of the symbol \<open>dst_format[j]\<close>.
  With \<open>src_format = NHWC\<close> and \<open>dst_format = NCHW\<close> the vector \<open>[10,20,30,40]\<close> becomes
  \<open>[10,40,20,30]\<close> and the rows of a \<open>[4, 2]\<close> input are reordered the same way, each row
  kept as it is.
\<close>

theorem C5_slices_permuted:
  assumes "DataFormatVecPermuteOp FormatFromString src_format dst_format = Inr this"
    and "distinct src_format" and "set src_format = set dst_format"
    and "format_vector input"
  shows "(\<exists>output.
      DataFormatVecPermuteOp_Compile DebugString oob this input = Inr output \<and>
      element_type output = element_type input \<and>
      dimensions output = dimensions input \<and>
      (\<forall>j<4. slice output j = slice input (position (dst_format ! j) src_format))) \<and>
    (src_format = ''NHWC'' \<and> dst_format = ''NCHW'' \<longrightarrow>
      DataFormatVecPermuteOp_Compile DebugString oob this
          \<lparr>element_type = ty, dimensions = [4], data = [10, 20, 30, 40]\<rparr> =
        Inr \<lparr>element_type = ty, dimensions = [4], data = [10, 40, 20, 30]\<rparr> \<and>
      DataFormatVecPermuteOp_Compile DebugString oob this
          \<lparr>element_type = ty, dimensions = [4, 2],
           data = [n0, n1, h0, h1, w0, w1, c0, c1]\<rparr> =
        Inr \<lparr>element_type = ty, dimensions = [4, 2],
             data = [n0, n1, c0, c1, h0, h1, w0, w1]\<rparr>)"
proof -
  note ctor = DataFormatVecPermuteOp_Inr [OF assms(1)]
  have members: "this = \<lparr>member_src_format = src_format, member_dst_format = dst_format\<rparr>"
    and src: "length src_format = 4" and dst: "length dst_format = 4"
    using ctor by simp_all
  have sub: "set dst_format \<subseteq> set src_format"
    by (simp only: assms(3) subset_refl)
  have dims: "dimensions input = [4] \<or> dimensions input = [4, 2]"
    using assms(4) by (simp add: format_vector_def)
  let ?output = "\<lparr>element_type = element_type input, dimensions = dimensions input,
      data = concat (map (\<lambda>c. slice input (position c src_format)) dst_format)\<rparr>"
  have run: "DataFormatVecPermuteOp_Compile DebugString oob this input = Inr ?output"
    unfolding members by (rule DataFormatVecPermuteOp_Compile_eq [OF src dst assms(2,3) dims])
  have slices: "\<forall>j<4. slice ?output j = slice input (position (dst_format ! j) src_format)"
  proof (intro allI impI)
    fix j :: nat
    assume "j < 4"
    then show "slice ?output j = slice input (position (dst_format ! j) src_format)"
      by (intro slice_permuted [OF src dst sub assms(4)]) simp_all
  qed
  have general: "\<exists>output.
      DataFormatVecPermuteOp_Compile DebugString oob this input = Inr output \<and>
      element_type output = element_type input \<and>
      dimensions output = dimensions input \<and>
      (\<forall>j<4. slice output j = slice input (position (dst_format ! j) src_format))"
    using run slices by (intro exI [of _ ?output]) simp
  have examples: "DataFormatVecPermuteOp_Compile DebugString oob
          \<lparr>member_src_format = ''NHWC'', member_dst_format = ''NCHW''\<rparr>
          \<lparr>element_type = ty, dimensions = [4], data = [10, 20, 30, 40]\<rparr> =
        Inr \<lparr>element_type = ty, dimensions = [4], data = [10, 40, 20, 30]\<rparr> \<and>
      DataFormatVecPermuteOp_Compile DebugString oob
          \<lparr>member_src_format = ''NHWC'', member_dst_format = ''NCHW''\<rparr>
          \<lparr>element_type = ty, dimensions = [4, 2],
           data = [n0, n1, h0, h1, w0, w1, c0, c1]\<rparr> =
        Inr \<lparr>element_type = ty, dimensions = [4, 2],
             data = [n0, n1, c0, c1, h0, h1, w0, w1]\<rparr>"
  proof -
    have same: "set ''NHWC'' = set ''NCHW''" by auto
    have run: "DataFormatVecPermuteOp_Compile DebugString oob
          \<lparr>member_src_format = ''NHWC'', member_dst_format = ''NCHW''\<rparr> x =
        Inr \<lparr>element_type = element_type x, dimensions = dimensions x,
             data = concat (map (\<lambda>c. slice x (position c ''NHWC'')) ''NCHW'')\<rparr>"
      if "dimensions x = [4] \<or> dimensions x = [4, 2]" for x
      using that by (intro DataFormatVecPermuteOp_Compile_eq same) simp_all
    show ?thesis
      by (simp add: run slice_def slice_size_def)
  qed
  show ?thesis
    using general examples members by blast
qed

theorem C5_slices_permuted_witness:
  "DataFormatVecPermuteOp layout_names ''NHWC'' ''NCHW'' =
     Inr \<lparr>member_src_format = ''NHWC'', member_dst_format = ''NCHW''\<rparr> \<and>
   DataFormatVecPermuteOp_Compile shape_string clamp
       \<lparr>member_src_format = ''NHWC'', member_dst_format = ''NCHW''\<rparr>
       \<lparr>element_type = S32, dimensions = [4], data = [10, 20, 30, 40]\<rparr> =
     Inr \<lparr>element_type = S32, dimensions = [4], data = [10, 40, 20, 30]\<rparr> \<and>
   DataFormatVecPermuteOp_Compile shape_string clamp
       \<lparr>member_src_format = ''NHWC'', member_dst_format = ''NCHW''\<rparr>
       \<lparr>element_type = S64, dimensions = [4, 2], data = [1, 2, 3, 4, 5, 6, 7, 8]\<rparr> =
     Inr \<lparr>element_type = S64, dimensions = [4, 2], data = [1, 2, 7, 8, 3, 4, 5, 6]\<rparr>"
proof -
  have ctor: "DataFormatVecPermuteOp layout_names ''NHWC'' ''NCHW'' =
     Inr \<lparr>member_src_format = ''NHWC'', member_dst_format = ''NCHW''\<rparr>"
    by (simp add: DataFormatVecPermuteOp_def layout_names_def)
  have d: "distinct ''NHWC''" by simp
  have s: "set ''NHWC'' = set ''NCHW''" by auto
  have v: "format_vector \<lparr>element_type = S32, dimensions = [4], data = [10, 20, 30, 40]\<rparr>"
    by (simp add: format_vector_def)
  show ?thesis
    using ctor
      C5_slices_permuted [OF ctor d s v, of shape_string clamp S32]
      C5_slices_permuted [OF ctor d s v, of shape_string clamp S64 1 2 3 4 5 6 7 8]
    by simp
qed

text \<open>
  C6. An input whose rank is neither 1 nor 2, or whose first-axis extent is not 4, or
  which has rank 2 and a second-axis extent other than 2, makes \<^verbatim>\<open>Compile\<close> of the
  vector-permute kernel fail with an invalid-argument error; no output is set.
\<close>

theorem C6_shape_rejected:
  assumes "(length (dimensions input) \<noteq> 1 \<and> length (dimensions input) \<noteq> 2) \<or>
    (0 < length (dimensions input) \<and> dimensions input ! 0 \<noteq> 4) \<or>
    (length (dimensions input) = 2 \<and> dimensions input ! 1 \<noteq> 2)"
  shows "\<exists>message.
    DataFormatVecPermuteOp_Compile DebugString oob this input = Inl (InvalidArgument message)"
  using assms by (auto simp: DataFormatVecPermuteOp_Compile_def Let_def)

theorem C6_shape_rejected_witness:
  "DataFormatVecPermuteOp_Compile shape_string clamp
       \<lparr>member_src_format = ''NHWC'', member_dst_format = ''NCHW''\<rparr>
       \<lparr>element_type = S32, dimensions = [4, 3], data = [1, 2, 3, 4, 5, 6, 7, 8, 9, 10, 11, 12]\<rparr> =
     Inl (InvalidArgument
       ''Second dimension of 2D input must be of size 2, but got shape [4,3]'')"
  using C6_shape_rejected [of
      "\<lparr>element_type = S32, dimensions = [4, 3], data = [1, 2, 3, 4, 5, 6, 7, 8, 9, 10, 11, 12]\<rparr>"
      shape_string clamp "\<lparr>member_src_format = ''NHWC'', member_dst_format = ''NCHW''\<rparr>"]
  by (simp add: DataFormatVecPermuteOp_Compile_def shape_string_def decimal.simps)

subsection \<open>Round trips\<close>

lemma table_composition:
  assumes "length src = 4" and "length dst = 4" and "distinct src" and "set src = set dst"
    and "i < 4"
  shows "map (\<lambda>c. int (position c src)) dst !
      nat (map (\<lambda>c. int (position c dst)) src ! i) = int i"
proof -
  have "src ! i \<in> set src"
    using assms(5) by (intro nth_mem) (simp only: assms(1))
  then have mem: "src ! i \<in> set dst"
    by (simp only: assms(4))
  have p: "position (src ! i) dst < 4"
    using position_less [OF mem] by (simp only: assms(2))
  have "map (\<lambda>c. int (position c dst)) src ! i = int (position (src ! i) dst)"
    using assms(5) by (simp add: assms(1))
  then have "map (\<lambda>c. int (position c src)) dst !
      nat (map (\<lambda>c. int (position c dst)) src ! i) =
      int (position (dst ! position (src ! i) dst) src)"
    using p by (simp add: assms(2))
  also have "\<dots> = int (position (src ! i) src)"
    by (simp only: nth_position [OF mem])
  also have "\<dots> = int i"
    using assms(3,5) by (simp add: position_nth assms(1))
  finally show ?thesis .
qed

lemma permute_back:
  assumes "length src = 4" and "length dst = 4" and "distinct src" and "set src = set dst"
    and "format_vector input"
    and "dimensions permuted = dimensions input"
    and "data permuted = concat (map (\<lambda>c. slice input (position c src)) dst)"
  shows "concat (map (\<lambda>c. slice permuted (position c dst)) src) = data input"
proof -
  have sub: "set dst \<subseteq> set src"
    by (simp only: assms(4) subset_refl)
  have "map (\<lambda>c. slice permuted (position c dst)) src =
      map (\<lambda>c. slice input (position c src)) src"
  proof (rule map_cong [OF refl])
    fix c
    assume "c \<in> set src"
    then have mem: "c \<in> set dst"
      by (simp only: assms(4))
    have p: "position c dst < 4"
      using position_less [OF mem] by (simp only: assms(2))
    have "slice permuted (position c dst) = slice input (position (dst ! position c dst) src)"
      by (rule slice_permuted [OF assms(1,2) sub assms(5) p assms(6,7)])
    then show "slice permuted (position c dst) = slice input (position c src)"
      by (simp only: nth_position [OF mem])
  qed
  then show ?thesis
    by (simp only: gather_in_order [OF assms(1,3,5)])
qed

text \<open>
  C7. For two strings of four distinct symbols that are permutations of each other, the
  table derived for \<open>(src, dst)\<close> followed by the table derived for \<open>(dst, src)\<close> is the
  identity on \<open>{0, 1, 2, 3}\<close>, in both orders. A vector permuted by the kernel built for
  \<open>(src, dst)\<close> and then by the kernel built for \<open>(dst, src)\<close> is the original vector, and
  the kernel built for \<open>(src, src)\<close> returns its input.
\<close>

theorem C7_round_trip:
  assumes "length src = 4" and "distinct src" and "is_permutation_of src dst"
    and "DataFormatVecPermuteOp FormatFromString src dst = Inr forward"
    and "DataFormatVecPermuteOp FormatFromString dst src = Inr backward"
    and "format_vector input"
  shows "(\<exists>there back_again.
      DataFormatDimMapOp src dst = Inr there \<and> DataFormatDimMapOp dst src = Inr back_again \<and>
      (\<forall>i<4. back_again ! nat (there ! i) = int i) \<and>
      (\<forall>i<4. there ! nat (back_again ! i) = int i)) \<and>
    (\<exists>permuted.
      DataFormatVecPermuteOp_Compile DebugString oob forward input = Inr permuted \<and>
      DataFormatVecPermuteOp_Compile DebugString oob backward permuted = Inr input) \<and>
    (\<exists>same.
      DataFormatVecPermuteOp FormatFromString src src = Inr same \<and>
      DataFormatVecPermuteOp_Compile DebugString oob same input = Inr input)"
proof -
  have mset: "mset src = mset dst"
    using assms(3) by (simp only: is_permutation_of_def)
  have sets: "set src = set dst"
    using mset by (rule mset_eq_setD)
  have sets': "set dst = set src"
    by (simp only: sets)
  have len: "length dst = 4"
    using mset_eq_length [OF mset] by (simp only: assms(1))
  have dst: "distinct dst"
    using mset_eq_imp_distinct_iff [OF mset] assms(2) by blast
  let ?there = "map (\<lambda>c. int (position c dst)) src"
  let ?inverse = "map (\<lambda>c. int (position c src)) dst"
  have there: "DataFormatDimMapOp src dst = Inr ?there"
    by (simp add: DataFormatDimMapOp_eq [OF assms(1) len] sets)
  have back_again: "DataFormatDimMapOp dst src = Inr ?inverse"
    by (simp add: DataFormatDimMapOp_eq [OF len assms(1)] sets)
  have tables: "\<exists>there back_again.
      DataFormatDimMapOp src dst = Inr there \<and> DataFormatDimMapOp dst src = Inr back_again \<and>
      (\<forall>i<4. back_again ! nat (there ! i) = int i) \<and>
      (\<forall>i<4. there ! nat (back_again ! i) = int i)"
    using there back_again
      table_composition [OF assms(1) len assms(2) sets]
      table_composition [OF len assms(1) dst sets']
    by blast
  have forward: "forward = \<lparr>member_src_format = src, member_dst_format = dst\<rparr>"
    and recognised: "FormatFromString src"
    using DataFormatVecPermuteOp_Inr [OF assms(4)] by simp_all
  have backward: "backward = \<lparr>member_src_format = dst, member_dst_format = src\<rparr>"
    using DataFormatVecPermuteOp_Inr [OF assms(5)] by simp
  have dims: "dimensions input = [4] \<or> dimensions input = [4, 2]"
    using assms(6) by (simp add: format_vector_def)
  have whole: "\<lparr>element_type = element_type input, dimensions = dimensions input,
      data = data input\<rparr> = input"
    by simp
  let ?permuted = "\<lparr>element_type = element_type input, dimensions = dimensions input,
      data = concat (map (\<lambda>c. slice input (position c src)) dst)\<rparr>"
  have go: "DataFormatVecPermuteOp_Compile DebugString oob forward input = Inr ?permuted"
    unfolding forward by (rule DataFormatVecPermuteOp_Compile_eq [OF assms(1) len assms(2) sets dims])
  have "DataFormatVecPermuteOp_Compile DebugString oob backward ?permuted =
      Inr \<lparr>element_type = element_type ?permuted, dimensions = dimensions ?permuted,
           data = concat (map (\<lambda>c. slice ?permuted (position c dst)) src)\<rparr>"
    unfolding backward
    using dims by (intro DataFormatVecPermuteOp_Compile_eq [OF len assms(1) dst sets']) simp
  moreover have "concat (map (\<lambda>c. slice ?permuted (position c dst)) src) = data input"
    by (rule permute_back [OF assms(1) len assms(2) sets assms(6)]) simp_all
  ultimately have return: "DataFormatVecPermuteOp_Compile DebugString oob backward ?permuted =
      Inr input"
    by (simp add: whole)
  have round_trip: "\<exists>permuted.
      DataFormatVecPermuteOp_Compile DebugString oob forward input = Inr permuted \<and>
      DataFormatVecPermuteOp_Compile DebugString oob backward permuted = Inr input"
    using go return by blast
  let ?same = "\<lparr>member_src_format = src, member_dst_format = src\<rparr>"
  have built: "DataFormatVecPermuteOp FormatFromString src src = Inr ?same"
    by (simp add: DataFormatVecPermuteOp_def assms(1) recognised)
  have "DataFormatVecPermuteOp_Compile DebugString oob ?same input =
      Inr \<lparr>element_type = element_type input, dimensions = dimensions input,
           data = concat (map (\<lambda>c. slice input (position c src)) src)\<rparr>"
    by (rule DataFormatVecPermuteOp_Compile_eq [OF assms(1,1,2) refl dims])
  then have "DataFormatVecPermuteOp_Compile DebugString oob ?same input = Inr input"
    by (simp add: gather_in_order [OF assms(1,2,6)] whole)
  then have identity: "\<exists>same.
      DataFormatVecPermuteOp FormatFromString src src = Inr same \<and>
      DataFormatVecPermuteOp_Compile DebugString oob same input = Inr input"
    using built by blast
  show ?thesis
    using tables round_trip identity by (intro conjI)
qed

theorem C7_round_trip_witness:
  "DataFormatDimMapOp ''NHWC'' ''NCHW'' = Inr [0, 2, 3, 1] \<and>
   DataFormatDimMapOp ''NCHW'' ''NHWC'' = Inr [0, 3, 1, 2] \<and>
   DataFormatVecPermuteOp_Compile shape_string clamp
       \<lparr>member_src_format = ''NHWC'', member_dst_format = ''NCHW''\<rparr>
       \<lparr>element_type = S32, dimensions = [4], data = [10, 20, 30, 40]\<rparr> =
     Inr \<lparr>element_type = S32, dimensions = [4], data = [10, 40, 20, 30]\<rparr> \<and>
   DataFormatVecPermuteOp_Compile shape_string clamp
       \<lparr>member_src_format = ''NCHW'', member_dst_format = ''NHWC''\<rparr>
       \<lparr>element_type = S32, dimensions = [4], data = [10, 40, 20, 30]\<rparr> =
     Inr \<lparr>element_type = S32, dimensions = [4], data = [10, 20, 30, 40]\<rparr> \<and>
   DataFormatVecPermuteOp_Compile shape_string clamp
       \<lparr>member_src_format = ''NHWC'', member_dst_format = ''NHWC''\<rparr>
       \<lparr>element_type = S32, dimensions = [4], data = [10, 20, 30, 40]\<rparr> =
     Inr \<lparr>element_type = S32, dimensions = [4], data = [10, 20, 30, 40]\<rparr>"
proof -
  have l: "length ''NHWC'' = 4" by simp
  have d: "distinct ''NHWC''" by simp
  have p: "is_permutation_of ''NHWC'' ''NCHW''"
    by (simp add: is_permutation_of_def)
  have f: "DataFormatVecPermuteOp layout_names ''NHWC'' ''NCHW'' =
     Inr \<lparr>member_src_format = ''NHWC'', member_dst_format = ''NCHW''\<rparr>"
    by (simp add: DataFormatVecPermuteOp_def layout_names_def)
  have b: "DataFormatVecPermuteOp layout_names ''NCHW'' ''NHWC'' =
     Inr \<lparr>member_src_format = ''NCHW'', member_dst_format = ''NHWC''\<rparr>"
    by (simp add: DataFormatVecPermuteOp_def layout_names_def)
  have v: "format_vector \<lparr>element_type = S32, dimensions = [4], data = [10, 20, 30, 40]\<rparr>"
    by (simp add: format_vector_def)
  have same: "set ''NHWC'' = set ''NCHW''" "set ''NCHW'' = set ''NHWC''" by auto
  have run: "DataFormatVecPermuteOp_Compile shape_string clamp
       \<lparr>member_src_format = ''NHWC'', member_dst_format = ''NCHW''\<rparr>
       \<lparr>element_type = S32, dimensions = [4], data = [10, 20, 30, 40]\<rparr> =
     Inr \<lparr>element_type = S32, dimensions = [4], data = [10, 40, 20, 30]\<rparr>"
    by (rule trans [OF DataFormatVecPermuteOp_Compile_eq [OF _ _ _ same(1)]])
      (simp_all add: slice_def slice_size_def)
  show ?thesis
    using C7_round_trip [OF l d p f b v, of shape_string clamp] run
    by (auto simp: DataFormatDimMapOp_def DataFormatVecPermuteOp_def layout_names_def)
qed

subsection \<open>Error messages\<close>

text \<open>
  C8. The claim: every validation failure of either kernel carries a message that names
  the offending value. The constructor of the vector-permute kernel fails on the
  three-character string \<open>NHW\<close> with the message "Data format should have 4 characters"
  and on the unrecognised string \<open>ABCD\<close> with the message "Invalid data format"; neither
  message contains the string.
\<close>

theorem C8_fixed_message_counterexample:
  "DataFormatVecPermuteOp layout_names ''NHW'' ''NCHW'' =
     Inl (InvalidArgument ''Data format should have 4 characters'') \<and>
   \<not> sublist ''NHW'' ''Data format should have 4 characters'' \<and>
   DataFormatVecPermuteOp layout_names ''ABCD'' ''NCHW'' =
     Inl (InvalidArgument ''Invalid data format'') \<and>
   \<not> sublist ''ABCD'' ''Invalid data format''"
proof (intro conjI)
  show "DataFormatVecPermuteOp layout_names ''NHW'' ''NCHW'' =
     Inl (InvalidArgument ''Data format should have 4 characters'')"
    by (simp add: DataFormatVecPermuteOp_def)
  show "\<not> sublist ''NHW'' ''Data format should have 4 characters''"
    by code_simp
  show "DataFormatVecPermuteOp layout_names ''ABCD'' ''NCHW'' =
     Inl (InvalidArgument ''Invalid data format'')"
    by (simp add: DataFormatVecPermuteOp_def layout_names_def)
  show "\<not> sublist ''ABCD'' ''Invalid data format''"
    by code_simp
qed

text \<open>
  C8, amended. A failure of the constructor of the dimension-index-remap kernel carries a
  message that contains the offending format string: the source string when its length is
  not 4, else the destination string when its length is not 4, else both strings. A shape
  failure of \<^verbatim>\<open>Compile\<close> of the vector-permute kernel carries a message that contains the
  rendering of the input shape. A failure of the constructor of the vector-permute kernel
  carries one of two fixed messages.
\<close>

theorem C8_messages:
  "(DataFormatDimMapOp src_format dst_format = Inl e \<longrightarrow>
      (\<exists>message. e = InvalidArgument message \<and>
         (length src_format \<noteq> 4 \<longrightarrow> sublist src_format message) \<and>
         (length src_format = 4 \<and> length dst_format \<noteq> 4 \<longrightarrow> sublist dst_format message) \<and>
         (length src_format = 4 \<and> length dst_format = 4 \<longrightarrow>
            sublist src_format message \<and> sublist dst_format message))) \<and>
   (DataFormatVecPermuteOp_Compile DebugString oob this input = Inl (InvalidArgument text) \<longrightarrow>
      sublist (DebugString (dimensions input)) text) \<and>
   (DataFormatVecPermuteOp FormatFromString src_format dst_format = Inl e' \<longrightarrow>
      e' = InvalidArgument ''Data format should have 4 characters'' \<or>
      e' = InvalidArgument ''Invalid data format'')"
proof (intro conjI impI)
  assume failed: "DataFormatDimMapOp src_format dst_format = Inl e"
  consider (src) "length src_format \<noteq> 4"
    | (dst) "length src_format = 4" "length dst_format \<noteq> 4"
    | (both) "length src_format = 4" "length dst_format = 4"
    by blast
  then show "\<exists>message. e = InvalidArgument message \<and>
         (length src_format \<noteq> 4 \<longrightarrow> sublist src_format message) \<and>
         (length src_format = 4 \<and> length dst_format \<noteq> 4 \<longrightarrow> sublist dst_format message) \<and>
         (length src_format = 4 \<and> length dst_format = 4 \<longrightarrow>
            sublist src_format message \<and> sublist dst_format message)"
  proof cases
    case src
    then have "e = InvalidArgument
        (''Source format must of length 4, received src_format = '' @ src_format)"
      using failed by (simp add: DataFormatDimMapOp_def)
    then show ?thesis
      using src sublist_append_leftI by blast
  next
    case dst
    then have "e = InvalidArgument
        (''Destination format must of length 4, received dst_format = '' @ dst_format)"
      using failed by (simp add: DataFormatDimMapOp_def)
    then show ?thesis
      using dst sublist_append_leftI by blast
  next
    case both
    then have "e = InvalidArgument (src_format @ '' is not a permutation of '' @ dst_format)"
      using failed by (simp add: DataFormatDimMapOp_eq split: if_splits)
    moreover have "sublist src_format (src_format @ '' is not a permutation of '' @ dst_format)"
      by (rule sublist_append_rightI)
    moreover have "sublist dst_format (src_format @ '' is not a permutation of '' @ dst_format)"
      using sublist_append_leftI [of dst_format "src_format @ '' is not a permutation of ''"]
      by simp
    ultimately show ?thesis
      using both by blast
  qed
next
  assume "DataFormatVecPermuteOp_Compile DebugString oob this input = Inl (InvalidArgument text)"
  then show "sublist (DebugString (dimensions input)) text"
    by (auto simp: DataFormatVecPermuteOp_Compile_def Let_def
        simp del: append.simps split: if_splits option.splits)
next
  assume "DataFormatVecPermuteOp FormatFromString src_format dst_format = Inl e'"
  then show "e' = InvalidArgument ''Data format should have 4 characters'' \<or>
      e' = InvalidArgument ''Invalid data format''"
    by (auto simp: DataFormatVecPermuteOp_def split: if_splits)
qed

theorem C8_messages_witness:
  "DataFormatDimMapOp ''NHWC'' ''NCDW'' =
     Inl (InvalidArgument ''NHWC is not a permutation of NCDW'') \<and>
   sublist ''NHWC'' ''NHWC is not a permutation of NCDW'' \<and>
   sublist ''NCDW'' ''NHWC is not a permutation of NCDW'' \<and>
   DataFormatVecPermuteOp_Compile shape_string clamp
       \<lparr>member_src_format = ''NHWC'', member_dst_format = ''NCHW''\<rparr>
       \<lparr>element_type = S32, dimensions = [5], data = [1, 2, 3, 4, 5]\<rparr> =
     Inl (InvalidArgument ''First dimension of input must be of size 4, but got shape [5]'') \<and>
   sublist (shape_string [5])
     ''First dimension of input must be of size 4, but got shape [5]'' \<and>
   DataFormatVecPermuteOp layout_names ''NHWC'' ''NCH'' =
     Inl (InvalidArgument ''Data format should have 4 characters'')"
proof -
  have a: "DataFormatDimMapOp ''NHWC'' ''NCDW'' =
     Inl (InvalidArgument ''NHWC is not a permutation of NCDW'')"
    by (simp add: DataFormatDimMapOp_def)
  have b: "DataFormatVecPermuteOp_Compile shape_string clamp
       \<lparr>member_src_format = ''NHWC'', member_dst_format = ''NCHW''\<rparr>
       \<lparr>element_type = S32, dimensions = [5], data = [1, 2, 3, 4, 5]\<rparr> =
     Inl (InvalidArgument ''First dimension of input must be of size 4, but got shape [5]'')"
    by (simp add: DataFormatVecPermuteOp_Compile_def shape_string_def decimal.simps)
  have c: "DataFormatVecPermuteOp layout_names ''NHWC'' ''NCH'' =
     Inl (InvalidArgument ''Data format should have 4 characters'')"
    by (simp add: DataFormatVecPermuteOp_def layout_names_def)
  show ?thesis
    using a b c
      C8_messages [of "''NHWC''" "''NCDW''"
        "InvalidArgument ''NHWC is not a permutation of NCDW''"
        shape_string clamp "\<lparr>member_src_format = ''NHWC'', member_dst_format = ''NCHW''\<rparr>"
        "\<lparr>element_type = S32, dimensions = [5], data = [1, 2, 3, 4, 5]\<rparr>"
        "''First dimension of input must be of size 4, but got shape [5]''"
        layout_names]
    by simp
qed

end
